theory Spec2Isabelle
  imports Main "HOL-Library.Sublist"
begin

section \<open>Python strings\<close>

text \<open>
  A Python \<^verbatim>\<open>str\<close> is a sequence of Unicode code points. A code point is a natural
  number, a string a list of them; \<open>ascii\<close> reads a literal of the ASCII repertoire.
\<close>

type_synonym codepoint = nat
type_synonym ustr = "codepoint list"

definition ascii :: "string \<Rightarrow> ustr" where
  "ascii s = map of_char s"

text \<open>
  The Unicode tables of the interpreter that go beyond ASCII are not part of the
  repository: the full case mapping behind \<^verbatim>\<open>str.lower\<close> and the decimal digits behind
  the pattern class \<^verbatim>\<open>\d\<close>. They are a parameter of every function that consults them.
  \<^verbatim>\<open>str.lower\<close> has its own path for a string that is ASCII throughout, and the decimal
  digits below 128 are \<^verbatim>\<open>0\<close> to \<^verbatim>\<open>9\<close>; the tables are asked about the rest only.
\<close>

record ucd =
  lower_full :: "ustr \<Rightarrow> ustr"
  decimal_digit :: "codepoint \<Rightarrow> bool"

definition ascii_lower :: "codepoint \<Rightarrow> codepoint" where
  "ascii_lower c = (if 65 \<le> c \<and> c \<le> 90 then c + 32 else c)"

definition py_lower :: "ucd \<Rightarrow> ustr \<Rightarrow> ustr" where
  "py_lower U s = (if list_all (\<lambda>c. c < 128) s then map ascii_lower s else lower_full U s)"

definition isdecimal :: "ucd \<Rightarrow> codepoint \<Rightarrow> bool" where
  "isdecimal U c = (if c < 128 then 48 \<le> c \<and> c \<le> 57 else decimal_digit U c)"

text \<open>
  White space as \<^verbatim>\<open>str.strip\<close>, \<^verbatim>\<open>str.isspace\<close> and the pattern class \<^verbatim>\<open>\s\<close> see it, and
  the line boundaries of \<^verbatim>\<open>str.splitlines\<close>.
\<close>

definition isspace :: "codepoint \<Rightarrow> bool" where
  "isspace c = ((9 \<le> c \<and> c \<le> 13) \<or> (28 \<le> c \<and> c \<le> 32) \<or> c = 133 \<or> c = 160
     \<or> c = 5760 \<or> (8192 \<le> c \<and> c \<le> 8202) \<or> c = 8232 \<or> c = 8233 \<or> c = 8239
     \<or> c = 8287 \<or> c = 12288)"

definition islinebreak :: "codepoint \<Rightarrow> bool" where
  "islinebreak c = ((10 \<le> c \<and> c \<le> 13) \<or> (28 \<le> c \<and> c \<le> 30) \<or> c = 133
     \<or> c = 8232 \<or> c = 8233)"

definition py_strip :: "ustr \<Rightarrow> ustr" where
  "py_strip s = rev (dropWhile isspace (rev (dropWhile isspace s)))"

text \<open>
  \<^verbatim>\<open>str.splitlines\<close>: a carriage return followed by a line feed is one boundary, and a
  boundary at the very end opens no further line.
\<close>

fun splitlines_from :: "ustr \<Rightarrow> ustr \<Rightarrow> ustr list" where
  "splitlines_from cur [] = (if cur = [] then [] else [rev cur])"
| "splitlines_from cur [c] = (if islinebreak c then [rev cur] else [rev (c # cur)])"
| "splitlines_from cur (c # d # cs) =
     (if c = 13 \<and> d = 10 then rev cur # splitlines_from [] cs
      else if islinebreak c then rev cur # splitlines_from [] (d # cs)
      else splitlines_from (c # cur) (d # cs))"

definition py_splitlines :: "ustr \<Rightarrow> ustr list" where
  "py_splitlines s = splitlines_from [] s"

definition py_startswith :: "ustr \<Rightarrow> ustr \<Rightarrow> bool" where
  "py_startswith s p = (take (length p) s = p)"

definition py_removeprefix :: "ustr \<Rightarrow> ustr \<Rightarrow> ustr" where
  "py_removeprefix s p = (if py_startswith s p then drop (length p) s else s)"

text \<open>The operator \<^verbatim>\<open>in\<close> on two strings: \<open>p\<close> occurs somewhere in \<open>s\<close>.\<close>

fun py_contains :: "ustr \<Rightarrow> ustr \<Rightarrow> bool" where
  "py_contains [] p = (p = [])"
| "py_contains (c # cs) p = (if py_startswith (c # cs) p then True else py_contains cs p)"

section \<open>The patterns of the extractor\<close>

text \<open>
  A pattern is run as the backtracking matcher of \<^verbatim>\<open>re\<close> runs it: a matcher maps the text
  at the current position to the rests that remain after each way of matching, the way
  tried first at the head. Greedy repetition tries the longest run first.
\<close>

type_synonym matcher = "ustr \<Rightarrow> ustr list"

definition m_char :: "(codepoint \<Rightarrow> bool) \<Rightarrow> matcher" where
  "m_char P s = (case s of [] \<Rightarrow> [] | c # cs \<Rightarrow> if P c then [cs] else [])"

fun m_star :: "(codepoint \<Rightarrow> bool) \<Rightarrow> matcher" where
  "m_star P [] = [[]]"
| "m_star P (c # cs) = (if P c then m_star P cs @ [c # cs] else [c # cs])"

definition m_plus :: "(codepoint \<Rightarrow> bool) \<Rightarrow> matcher" where
  "m_plus P s = (case s of [] \<Rightarrow> [] | c # cs \<Rightarrow> if P c then m_star P cs else [])"

definition m_seq :: "matcher \<Rightarrow> matcher \<Rightarrow> matcher" where
  "m_seq m1 m2 s = concat (map m2 (m1 s))"

definition m_alt :: "matcher \<Rightarrow> matcher \<Rightarrow> matcher" where
  "m_alt m1 m2 s = m1 s @ m2 s"

definition is_bullet :: "codepoint \<Rightarrow> bool" where
  "is_bullet c = (c = 45 \<or> c = 42 \<or> c = 8226)"

text \<open>\<^verbatim>\<open>BULLET_PREFIX_PATTERN = re.compile(r"^\s*([-*\<bullet>]|\d+\.)\s+")\<close>, tried at position 0.\<close>

definition BULLET_PREFIX_PATTERN :: "ucd \<Rightarrow> matcher" where
  "BULLET_PREFIX_PATTERN U =
     m_seq (m_star isspace)
       (m_seq (m_alt (m_char is_bullet) (m_seq (m_plus (isdecimal U)) (m_char (\<lambda>c. c = 46))))
          (m_plus isspace))"

text \<open>\<^verbatim>\<open>BULLET_PREFIX_PATTERN.match(s)\<close>: the rest after the match, if there is one.\<close>

definition bullet_match :: "ucd \<Rightarrow> ustr \<Rightarrow> ustr option" where
  "bullet_match U s = (case BULLET_PREFIX_PATTERN U s of [] \<Rightarrow> None | r # _ \<Rightarrow> Some r)"

text \<open>
  \<^verbatim>\<open>BULLET_PREFIX_PATTERN.sub("", s)\<close>: the pattern is anchored by \<^verbatim>\<open>^\<close> without the
  multi-line flag, so the only place it can match is position 0; a match is never empty.
\<close>

definition bullet_sub :: "ucd \<Rightarrow> ustr \<Rightarrow> ustr" where
  "bullet_sub U s = (case bullet_match U s of None \<Rightarrow> s | Some r \<Rightarrow> r)"

definition KEYWORD_PREFIXES :: "ustr list" where
  "KEYWORD_PREFIXES = [ascii ''todo:'', ascii ''action:'', ascii ''next:'']"

definition is_sentence_end :: "codepoint \<Rightarrow> bool" where
  "is_sentence_end c = (c = 46 \<or> c = 33 \<or> c = 63)"

text \<open>
  \<^verbatim>\<open>re.split(r"(?<=[.!?])\s+", s)\<close>: a separator is a run of white space that starts right
  after one of \<^verbatim>\<open>. ! ?\<close>; the run is taken whole. \<open>after_end\<close> says that the code point
  before the current position is such a mark.
\<close>

function re_split_from :: "bool \<Rightarrow> ustr \<Rightarrow> ustr \<Rightarrow> ustr list" where
  "re_split_from after_end cur [] = [rev cur]"
| "re_split_from after_end cur (c # cs) =
     (if after_end \<and> isspace c then rev cur # re_split_from False [] (dropWhile isspace cs)
      else re_split_from (is_sentence_end c) (c # cur) cs)"
  by pat_completeness auto
termination
  by (relation "measure (\<lambda>(after_end, cur, s). length s)")
    (auto simp: length_dropWhile_le less_Suc_eq_le)

definition re_split_sentences :: "ustr \<Rightarrow> ustr list" where
  "re_split_sentences s = re_split_from False [] s"

definition is_word_char :: "codepoint \<Rightarrow> bool" where
  "is_word_char c = ((65 \<le> c \<and> c \<le> 90) \<or> (97 \<le> c \<and> c \<le> 122) \<or> c = 39)"

text \<open>\<^verbatim>\<open>re.findall(r"[A-Za-z']+", s)\<close>: the maximal runs of letters and apostrophes.\<close>

fun findall_from :: "ustr \<Rightarrow> ustr \<Rightarrow> ustr list" where
  "findall_from cur [] = (if cur = [] then [] else [rev cur])"
| "findall_from cur (c # cs) =
     (if is_word_char c then findall_from (c # cur) cs
      else if cur = [] then findall_from [] cs
      else rev cur # findall_from [] cs)"

definition findall_words :: "ustr \<Rightarrow> ustr list" where
  "findall_words s = findall_from [] s"

section \<open>The extractor\<close>

definition is_action_line :: "ucd \<Rightarrow> ustr \<Rightarrow> bool" where
  "is_action_line U line =
     (let stripped = py_lower U (py_strip line) in
      if stripped = [] then False
      else if bullet_match U stripped \<noteq> None then True
      else if list_ex (\<lambda>prefix. py_startswith stripped prefix) KEYWORD_PREFIXES then True
      else if py_contains stripped (ascii ''[ ]'') then True
      else if py_contains stripped (ascii ''[todo]'') then True
      else False)"

definition imperative_starters :: "ustr set" where
  "imperative_starters =
     {ascii ''add'', ascii ''create'', ascii ''implement'', ascii ''fix'', ascii ''update'',
      ascii ''write'', ascii ''check'', ascii ''verify'', ascii ''refactor'',
      ascii ''document'', ascii ''design'', ascii ''investigate''}"

definition looks_imperative :: "ucd \<Rightarrow> ustr \<Rightarrow> bool" where
  "looks_imperative U sentence =
     (case findall_words sentence of
        [] \<Rightarrow> False
      | first # _ \<Rightarrow> py_lower U first \<in> imperative_starters)"

text \<open>The first loop: over the lines, appending to \<open>extracted\<close>.\<close>

fun line_loop :: "ucd \<Rightarrow> ustr list \<Rightarrow> ustr list \<Rightarrow> ustr list" where
  "line_loop U extracted [] = extracted"
| "line_loop U extracted (raw_line # lines) =
     (let line = py_strip raw_line in
      if line = [] then line_loop U extracted lines
      else if is_action_line U line then
        (let cleaned = bullet_sub U line;
             cleaned = py_strip cleaned;
             cleaned = py_strip (py_removeprefix cleaned (ascii ''[ ]''));
             cleaned = py_strip (py_removeprefix cleaned (ascii ''[todo]''))
         in line_loop U (extracted @ [cleaned]) lines)
      else line_loop U extracted lines)"

text \<open>The second loop: over the sentences of the fallback.\<close>

fun sentence_loop :: "ucd \<Rightarrow> ustr list \<Rightarrow> ustr list \<Rightarrow> ustr list" where
  "sentence_loop U extracted [] = extracted"
| "sentence_loop U extracted (sentence # sentences) =
     (let s = py_strip sentence in
      if s = [] then sentence_loop U extracted sentences
      else if looks_imperative U s then sentence_loop U (extracted @ [s]) sentences
      else sentence_loop U extracted sentences)"

text \<open>The third loop: the set \<open>seen\<close> of lower-cased items and the list \<open>unique\<close>.\<close>

fun dedupe_loop :: "ucd \<Rightarrow> ustr set \<Rightarrow> ustr list \<Rightarrow> ustr list \<Rightarrow> ustr list" where
  "dedupe_loop U seen unique [] = unique"
| "dedupe_loop U seen unique (item # items) =
     (let lowered = py_lower U item in
      if lowered \<in> seen then dedupe_loop U seen unique items
      else dedupe_loop U (insert lowered seen) (unique @ [item]) items)"

text \<open>What the first loop leaves in \<open>extracted\<close>, and what the deduplication is given.\<close>

definition tier_items :: "ucd \<Rightarrow> ustr \<Rightarrow> ustr list" where
  "tier_items U text = line_loop U [] (py_splitlines text)"

definition extracted_items :: "ucd \<Rightarrow> ustr \<Rightarrow> ustr list" where
  "extracted_items U text =
     (let extracted = tier_items U text in
      if extracted = [] then sentence_loop U extracted (re_split_sentences (py_strip text))
      else extracted)"

definition extract_action_items :: "ucd \<Rightarrow> ustr \<Rightarrow> ustr list" where
  "extract_action_items U text = dedupe_loop U {} [] (extracted_items U text)"

text \<open>
  A table that knows no letter case and no decimal digit beyond ASCII. It stands in
  where a statement needs one concrete table; on text of the ASCII repertoire no table
  is consulted.
\<close>

definition ucd_ascii :: ucd where
  "ucd_ascii = \<lparr>lower_full = (\<lambda>s. s), decimal_digit = (\<lambda>c. False)\<rparr>"

section \<open>The store\<close>

text \<open>
  The two tables of \<^verbatim>\<open>init_db\<close>. The model is of a store that is reachable and whose
  schema exists: creating the directory, connecting and running a statement succeed,
  except that a Python integer outside the 64-bit range cannot be bound to a parameter.
\<close>

record note_row =
  n_id :: int
  n_content :: ustr
  n_created_at :: ustr

record action_item =
  ai_id :: int
  ai_note_id :: "int option"
  ai_text :: ustr
  ai_done :: int
  ai_created_at :: ustr

record database =
  notes_table :: "note_row list"
  action_items_table :: "action_item list"

text \<open>
  The exceptions of \<^verbatim>\<open>exceptions.py\<close> and of the interpreter that the store meets.
  \<^verbatim>\<open>ActionItemNotFoundError\<close> is a subclass of \<^verbatim>\<open>DatabaseError\<close>; a
  \<^verbatim>\<open>DatabaseError\<close> raised \<^verbatim>\<open>from e\<close> carries its message and its cause \<open>e\<close>.
\<close>

datatype db_message =
  Database_operation_failed
  | Unexpected_database_error
  | Failed_to_update_action_item

datatype exc =
  Sqlite3_Error
  | OverflowError
  | ActionItemNotFoundError int
  | DatabaseError db_message exc

text \<open>The \<^verbatim>\<open>except\<close> clauses: does the exception belong to the class named?\<close>

fun is_sqlite3_Error :: "exc \<Rightarrow> bool" where
  "is_sqlite3_Error Sqlite3_Error = True"
| "is_sqlite3_Error _ = False"

fun is_ActionItemNotFoundError :: "exc \<Rightarrow> bool" where
  "is_ActionItemNotFoundError (ActionItemNotFoundError _) = True"
| "is_ActionItemNotFoundError _ = False"

fun is_DatabaseError :: "exc \<Rightarrow> bool" where
  "is_DatabaseError (ActionItemNotFoundError _) = True"
| "is_DatabaseError (DatabaseError _ _) = True"
| "is_DatabaseError _ = False"

definition sqlite_int_ok :: "int \<Rightarrow> bool" where
  "sqlite_int_ok i = (- (2 ^ 63) \<le> i \<and> i < 2 ^ 63)"

text \<open>
  \<^verbatim>\<open>cursor.execute("UPDATE action_items SET done = ? WHERE id = ?", (d, i))\<close>: the rows
  after the statement and \<^verbatim>\<open>cursor.rowcount\<close>, the number of rows the condition selects.
\<close>

definition execute_update_done :: "int \<Rightarrow> int \<Rightarrow> database \<Rightarrow> (exc + nat) \<times> database" where
  "execute_update_done d i conn =
     (if sqlite_int_ok i then
        (Inr (length (filter (\<lambda>r. ai_id r = i) (action_items_table conn))),
         conn\<lparr>action_items_table :=
           map (\<lambda>r. if ai_id r = i then r\<lparr>ai_done := d\<rparr> else r) (action_items_table conn)\<rparr>)
      else (Inl OverflowError, conn))"

text \<open>
  \<^verbatim>\<open>get_connection\<close>, the context manager, around the body of a \<^verbatim>\<open>with\<close> statement. The
  body works on the connection's view of the store. When it ends normally the view is
  committed. An exception of the body is thrown into the generator at \<^verbatim>\<open>yield\<close>: the
  view is rolled back, and the handler there raises a \<^verbatim>\<open>DatabaseError\<close> from it, for a
  \<^verbatim>\<open>sqlite3.Error\<close> in the first clause and for any other \<^verbatim>\<open>Exception\<close> in the second.
\<close>

definition get_connection ::
  "database \<Rightarrow> (database \<Rightarrow> (exc + 'a) \<times> database) \<Rightarrow> (exc + 'a) \<times> database" where
  "get_connection db body =
     (case body db of
        (Inr r, conn) \<Rightarrow> (Inr r, conn)
      | (Inl e, conn) \<Rightarrow>
          (if is_sqlite3_Error e then (Inl (DatabaseError Database_operation_failed e), db)
           else (Inl (DatabaseError Unexpected_database_error e), db)))"

definition mark_action_item_done :: "int \<Rightarrow> bool \<Rightarrow> database \<Rightarrow> (exc + unit) \<times> database" where
  "mark_action_item_done action_item_id done db =
     (case get_connection db
             (\<lambda>connection.
                case execute_update_done (if done then 1 else 0) action_item_id connection of
                  (Inl e, conn) \<Rightarrow> (Inl e, conn)
                | (Inr rowcount, conn) \<Rightarrow>
                    (if rowcount = 0 then (Inl (ActionItemNotFoundError action_item_id), conn)
                     else (Inr (), conn))) of
        (Inr r, db') \<Rightarrow> (Inr r, db')
      | (Inl e, db') \<Rightarrow>
          (if is_ActionItemNotFoundError e then (Inl e, db')
           else if is_sqlite3_Error e then (Inl (DatabaseError Failed_to_update_action_item e), db')
           else (Inl e, db')))"

text \<open>A store with one open action item, of id 1.\<close>

definition db_one_item :: database where
  "db_one_item =
     \<lparr>notes_table = [],
      action_items_table =
        [\<lparr>ai_id = 1, ai_note_id = None, ai_text = ascii ''Write unit tests'', ai_done = 0,
          ai_created_at = ascii ''2024-01-01 00:00:00''\<rparr>]\<rparr>"

section \<open>Evaluation and supporting lemmas\<close>

lemmas extractor_defs =
  ascii_def ascii_lower_def py_lower_def isdecimal_def isspace_def islinebreak_def
  py_strip_def py_splitlines_def py_startswith_def py_removeprefix_def m_char_def m_plus_def
  m_seq_def m_alt_def is_bullet_def BULLET_PREFIX_PATTERN_def bullet_match_def bullet_sub_def
  KEYWORD_PREFIXES_def is_sentence_end_def re_split_sentences_def is_word_char_def
  findall_words_def is_action_line_def imperative_starters_def looks_imperative_def
  tier_items_def extracted_items_def extract_action_items_def Let_def

lemmas store_defs =
  mark_action_item_done_def get_connection_def execute_update_done_def sqlite_int_ok_def
  db_one_item_def

subsection \<open>The loops as list operations\<close>

lemma sentence_loop_filter:
  "sentence_loop U extracted sentences =
     extracted @ filter (looks_imperative U) (filter (\<lambda>s. s \<noteq> []) (map py_strip sentences))"
  by (induction sentences arbitrary: extracted) (simp_all add: Let_def)

lemma dedupe_loop_first_occurrences:
  "dedupe_loop U seen unique items =
     unique @ map (nth items)
       (filter (\<lambda>i. py_lower U (items ! i) \<notin> seen \<union> py_lower U ` set (take i items))
          [0..<length items])"
proof (induction items arbitrary: seen unique)
  case Nil
  then show ?case by simp
next
  case (Cons x xs)
  have upt: "[0..<length (x # xs)] = 0 # map Suc [0..<length xs]"
    by (simp add: upt_conv_Cons map_Suc_upt del: upt_Suc)
  show ?case
  proof (cases "py_lower U x \<in> seen")
    case True
    then have "\<And>a R. (a \<notin> seen \<and> a \<noteq> py_lower U x \<and> R) = (a \<notin> seen \<and> R)"
      by auto
    with True show ?thesis
      unfolding upt by (simp add: Cons.IH filter_map comp_def Let_def)
  next
    case False
    then show ?thesis
      unfolding upt
      by (simp add: Cons.IH filter_map comp_def Let_def conj_commute conj_left_commute)
  qed
qed

lemma dedupe_loop_distinct:
  "distinct (map (py_lower U) unique) \<Longrightarrow> py_lower U ` set unique \<subseteq> seen \<Longrightarrow>
   distinct (map (py_lower U) (dedupe_loop U seen unique items))"
proof (induction items arbitrary: seen unique)
  case Nil
  then show ?case by simp
next
  case (Cons x xs)
  show ?case
  proof (cases "py_lower U x \<in> seen")
    case True
    with Cons show ?thesis by simp
  next
    case False
    have "distinct (map (py_lower U) (unique @ [x]))"
      using Cons.prems False by auto
    moreover have "py_lower U ` set (unique @ [x]) \<subseteq> insert (py_lower U x) seen"
      using Cons.prems by auto
    ultimately show ?thesis
      using False Cons.IH by (simp add: Let_def)
  qed
qed

lemma dedupe_loop_subseq:
  "\<exists>ys. dedupe_loop U seen unique items = unique @ ys \<and> subseq ys items"
proof (induction items arbitrary: seen unique)
  case Nil
  then show ?case by simp
next
  case (Cons x xs)
  show ?case
  proof (cases "py_lower U x \<in> seen")
    case True
    then show ?thesis using Cons.IH [of seen unique] by (auto simp: Let_def)
  next
    case False
    then show ?thesis using Cons.IH [of "insert (py_lower U x) seen" "unique @ [x]"]
      by (auto simp: Let_def)
  qed
qed

subsection \<open>Text that is white space only\<close>

lemma py_strip_blank: "list_all isspace s \<Longrightarrow> py_strip s = []"
  by (auto simp: py_strip_def list_all_iff dest: set_dropWhileD)

lemma splitlines_from_chars:
  "l \<in> set (splitlines_from cur s) \<Longrightarrow> set l \<subseteq> set cur \<union> set s"
  by (induction cur s rule: splitlines_from.induct) (auto split: if_splits)

lemma py_splitlines_blank:
  "list_all isspace s \<Longrightarrow> l \<in> set (py_splitlines s) \<Longrightarrow> list_all isspace l"
  using splitlines_from_chars [of l "[]" s] by (auto simp: py_splitlines_def list_all_iff)

lemma line_loop_blank:
  "list_all (\<lambda>l. py_strip l = []) lines \<Longrightarrow> line_loop U extracted lines = extracted"
  by (induction lines arbitrary: extracted) (simp_all add: Let_def)

lemma tier_items_blank: "list_all isspace s \<Longrightarrow> tier_items U s = []"
proof -
  assume a: "list_all isspace s"
  have "list_all (\<lambda>l. py_strip l = []) (py_splitlines s)"
    using py_splitlines_blank [OF a] py_strip_blank by (auto simp: list_all_iff)
  then show ?thesis by (simp add: tier_items_def line_loop_blank)
qed

subsection \<open>The first word of a sentence\<close>

lemma findall_from_word:
  "cur \<noteq> [] \<Longrightarrow> \<exists>rest. findall_from cur s = (rev cur @ takeWhile is_word_char s) # rest"
proof (induction s arbitrary: cur)
  case Nil
  then show ?case by simp
next
  case (Cons c cs)
  show ?case
  proof (cases "is_word_char c")
    case True
    then show ?thesis using Cons.IH [of "c # cur"] by simp
  next
    case False
    then show ?thesis using Cons.prems by simp
  qed
qed

lemma findall_from_first:
  "(case findall_from [] s of [] \<Rightarrow> None | w # _ \<Rightarrow> Some w) =
   (let w = takeWhile is_word_char (dropWhile (\<lambda>c. \<not> is_word_char c) s)
    in if w = [] then None else Some w)"
proof (induction s)
  case Nil
  then show ?case by simp
next
  case (Cons c cs)
  show ?case
  proof (cases "is_word_char c")
    case True
    obtain rest where "findall_from [c] cs = ([c] @ takeWhile is_word_char cs) # rest"
      using findall_from_word [of "[c]" cs] by auto
    with True show ?thesis by simp
  next
    case False
    with Cons show ?thesis by simp
  qed
qed

lemma py_lower_word: "list_all is_word_char w \<Longrightarrow> py_lower U w = map ascii_lower w"
proof -
  assume "list_all is_word_char w"
  then have "list_all (\<lambda>c. c < 128) w"
    by (auto simp: list_all_iff is_word_char_def)
  then show ?thesis by (simp add: py_lower_def)
qed

lemma looks_imperative_first_word:
  "looks_imperative U s =
     (let w = takeWhile is_word_char (dropWhile (\<lambda>c. \<not> is_word_char c) s)
      in w \<noteq> [] \<and> map ascii_lower w \<in> imperative_starters)"
proof -
  let ?w = "takeWhile is_word_char (dropWhile (\<lambda>c. \<not> is_word_char c) s)"
  have w: "py_lower U ?w = map ascii_lower ?w"
    by (rule py_lower_word) (simp add: list_all_iff, meson set_takeWhileD)
  show ?thesis
    using findall_from_first [of s] w
    by (auto simp: looks_imperative_def findall_words_def Let_def split: list.splits if_splits)
qed

subsection \<open>Marking an item in the store\<close>

lemma rowcount_zero_iff:
  "(length (filter (\<lambda>r. ai_id r = i) rows) = 0) = (i \<notin> ai_id ` set rows)"
  by (auto simp: filter_empty_conv)

lemma mark_action_item_done_absent:
  assumes "sqlite_int_ok i" and "i \<notin> ai_id ` set (action_items_table db)"
  shows "mark_action_item_done i d db =
           (Inl (DatabaseError Unexpected_database_error (ActionItemNotFoundError i)), db)"
  using assms rowcount_zero_iff [of i "action_items_table db"]
  by (simp add: mark_action_item_done_def get_connection_def execute_update_done_def)

lemma mark_action_item_done_present:
  assumes "sqlite_int_ok i" and "i \<in> ai_id ` set (action_items_table db)"
  shows "mark_action_item_done i d db =
           (Inr (),
            db\<lparr>action_items_table :=
              map (\<lambda>r. if ai_id r = i then r\<lparr>ai_done := (if d then 1 else 0)\<rparr> else r)
                (action_items_table db)\<rparr>)"
  using assms rowcount_zero_iff [of i "action_items_table db"]
  by (simp add: mark_action_item_done_def get_connection_def execute_update_done_def)

lemma mark_action_item_done_never_not_found:
  "fst (mark_action_item_done i d db) \<noteq> Inl (ActionItemNotFoundError j)"
  by (auto simp: mark_action_item_done_def get_connection_def execute_update_done_def
      split: if_splits prod.splits sum.splits)


section \<open>The claims\<close>

text \<open>
  C1, as stated: on the four keyword lines the extractor would return the four items with
  their keyword prefixes \<^verbatim>\<open>todo:\<close>, \<^verbatim>\<open>action:\<close>, \<^verbatim>\<open>next:\<close> removed. It does not: the
  keyword prefixes classify a line and are never removed.
\<close>

theorem keyword_prefix_stripped_counterexample:
  "extract_action_items ucd_ascii
     (ascii ''TODO: Fix the bug\<newline>action: Update auth\<newline>next: Test feature\<newline>todo: Review PRs'')
   \<noteq> [ascii ''Fix the bug'', ascii ''Update auth'', ascii ''Test feature'', ascii ''Review PRs'']"
  by (simp add: extractor_defs ucd_ascii_def)

text \<open>
  C1, amended: on the four keyword lines the extractor returns the four lines themselves,
  each trimmed of surrounding white space and with its keyword prefix in place; the
  prefix is matched without regard to case, so \<^verbatim>\<open>TODO:\<close> classifies as \<^verbatim>\<open>todo:\<close> does.
\<close>

theorem keyword_lines_keep_prefix:
  "extract_action_items U
     (ascii ''TODO: Fix the bug\<newline>action: Update auth\<newline>next: Test feature\<newline>todo: Review PRs'')
   = [ascii ''TODO: Fix the bug'', ascii ''action: Update auth'', ascii ''next: Test feature'',
      ascii ''todo: Review PRs'']"
  by (simp add: extractor_defs)

text \<open>
  C2: a non-blank line that classifies as an action line is cleaned in a fixed order:
  the bullet or numbering prefix goes first, then a leading \<^verbatim>\<open>[ ]\<close>, then a leading
  \<^verbatim>\<open>[todo]\<close>, with white space trimmed after each step, and the result is appended to
  \<open>extracted\<close>. So the line \<^verbatim>\<open>[ ] - task\<close> gives the item \<^verbatim>\<open>- task\<close>: the dash that the
  checkbox step uncovers stays, whereas removing the checkbox before the bullet would
  have left \<^verbatim>\<open>task\<close>.
\<close>

theorem action_line_stripping_order:
  assumes "py_strip raw_line \<noteq> []" and "is_action_line U (py_strip raw_line)"
  shows "line_loop U extracted (raw_line # lines) =
           line_loop U
             (extracted @
               [py_strip (py_removeprefix
                  (py_strip (py_removeprefix
                     (py_strip (bullet_sub U (py_strip raw_line)))
                     (ascii ''[ ]'')))
                  (ascii ''[todo]''))])
             lines
         \<and> extract_action_items U (ascii ''[ ] - task'') = [ascii ''- task'']
         \<and> py_strip (bullet_sub U (py_strip (py_removeprefix (ascii ''[ ] - task'') (ascii ''[ ]''))))
             = ascii ''task''"
proof (intro conjI)
  show "line_loop U extracted (raw_line # lines) =
           line_loop U
             (extracted @
               [py_strip (py_removeprefix
                  (py_strip (py_removeprefix
                     (py_strip (bullet_sub U (py_strip raw_line)))
                     (ascii ''[ ]'')))
                  (ascii ''[todo]''))])
             lines"
    using assms by (simp add: Let_def)
  show "extract_action_items U (ascii ''[ ] - task'') = [ascii ''- task'']"
    by (simp add: extractor_defs)
  show "py_strip (bullet_sub U (py_strip (py_removeprefix (ascii ''[ ] - task'') (ascii ''[ ]''))))
          = ascii ''task''"
    by (simp add: extractor_defs)
qed

theorem action_line_stripping_order_witness:
  "py_strip (ascii ''[ ] - task'') \<noteq> []
   \<and> is_action_line ucd_ascii (py_strip (ascii ''[ ] - task''))
   \<and> line_loop ucd_ascii [] [ascii ''[ ] - task''] = [ascii ''- task'']"
proof -
  have h1: "py_strip (ascii ''[ ] - task'') \<noteq> []"
    by (simp add: extractor_defs)
  have h2: "is_action_line ucd_ascii (py_strip (ascii ''[ ] - task''))"
    by (simp add: extractor_defs)
  show ?thesis
    using h1 h2 action_line_stripping_order [OF h1 h2, of "[]" "[]"]
    by (simp add: extractor_defs)
qed

text \<open>
  C3: for every text, no two items of the result are equal after lower-casing, and the
  result is the list handed to the deduplication with exactly the first occurrences kept:
  the item at position \<open>i\<close> stays if and only if no earlier position holds an item with
  the same lower-casing. The order of the items that stay is the order they had.
\<close>

theorem dedup_keeps_first_occurrences_in_order:
  "distinct (map (py_lower U) (extract_action_items U text))
   \<and> subseq (extract_action_items U text) (extracted_items U text)
   \<and> extract_action_items U text =
       map (nth (extracted_items U text))
         (filter
            (\<lambda>i. py_lower U (extracted_items U text ! i)
                   \<notin> py_lower U ` set (take i (extracted_items U text)))
            [0..<length (extracted_items U text)])"
proof (intro conjI)
  show "distinct (map (py_lower U) (extract_action_items U text))"
    unfolding extract_action_items_def by (rule dedupe_loop_distinct) simp_all
  show "subseq (extract_action_items U text) (extracted_items U text)"
    using dedupe_loop_subseq [of U "{}" "[]" "extracted_items U text"]
    by (auto simp: extract_action_items_def)
  show "extract_action_items U text =
       map (nth (extracted_items U text))
         (filter
            (\<lambda>i. py_lower U (extracted_items U text ! i)
                   \<notin> py_lower U ` set (take i (extracted_items U text)))
            [0..<length (extracted_items U text)])"
    unfolding extract_action_items_def by (simp add: dedupe_loop_first_occurrences)
qed

text \<open>
  C4: the sentences of the fallback are consulted exactly when the line tier has left
  nothing for the whole text. When the line tier found no item, the result is the
  deduplicated list of the imperative sentences; when it found one or more, the result
  is the deduplicated list of its items alone, whatever the sentences are.
\<close>

theorem fallback_iff_line_tier_empty:
  "(tier_items U text = [] \<longrightarrow>
      extracted_items U text = sentence_loop U [] (re_split_sentences (py_strip text))
      \<and> extract_action_items U text =
          dedupe_loop U {} [] (sentence_loop U [] (re_split_sentences (py_strip text))))
   \<and> (tier_items U text \<noteq> [] \<longrightarrow>
      extracted_items U text = tier_items U text
      \<and> extract_action_items U text = dedupe_loop U {} [] (tier_items U text))"
  by (simp add: extract_action_items_def extracted_items_def Let_def)

theorem fallback_iff_line_tier_empty_witness:
  "tier_items ucd_ascii (ascii ''Fix the door. Then we rest.'') = []
   \<and> extract_action_items ucd_ascii (ascii ''Fix the door. Then we rest.'')
       = [ascii ''Fix the door.'']
   \<and> tier_items ucd_ascii (ascii ''- Buy milk.\<newline>Fix the door.'') \<noteq> []
   \<and> sentence_loop ucd_ascii []
        (re_split_sentences (py_strip (ascii ''- Buy milk.\<newline>Fix the door.'')))
       = [ascii ''Fix the door.'']
   \<and> extract_action_items ucd_ascii (ascii ''- Buy milk.\<newline>Fix the door.'')
       = [ascii ''Buy milk.'']"
proof -
  have h1: "tier_items ucd_ascii (ascii ''Fix the door. Then we rest.'') = []"
    by (simp add: extractor_defs)
  have h2: "tier_items ucd_ascii (ascii ''- Buy milk.\<newline>Fix the door.'') = [ascii ''Buy milk.'']"
    by (simp add: extractor_defs)
  have s1: "sentence_loop ucd_ascii []
      (re_split_sentences (py_strip (ascii ''Fix the door. Then we rest.'')))
     = [ascii ''Fix the door.'']"
    by (simp add: extractor_defs)
  have s2: "sentence_loop ucd_ascii []
      (re_split_sentences (py_strip (ascii ''- Buy milk.\<newline>Fix the door.'')))
     = [ascii ''Fix the door.'']"
    by (simp add: extractor_defs)
  have d1: "dedupe_loop ucd_ascii {} [] [ascii ''Fix the door.''] = [ascii ''Fix the door.'']"
    by (simp add: extractor_defs)
  have d2: "dedupe_loop ucd_ascii {} [] [ascii ''Buy milk.''] = [ascii ''Buy milk.'']"
    by (simp add: extractor_defs)
  have t2: "tier_items ucd_ascii (ascii ''- Buy milk.\<newline>Fix the door.'') \<noteq> []"
    unfolding h2 by simp
  have e1: "extract_action_items ucd_ascii (ascii ''Fix the door. Then we rest.'')
      = [ascii ''Fix the door.'']"
    using fallback_iff_line_tier_empty [of ucd_ascii "ascii ''Fix the door. Then we rest.''"] h1
    unfolding s1 d1 by blast
  have e2: "extract_action_items ucd_ascii (ascii ''- Buy milk.\<newline>Fix the door.'')
      = [ascii ''Buy milk.'']"
    using fallback_iff_line_tier_empty [of ucd_ascii "ascii ''- Buy milk.\<newline>Fix the door.''"] t2
    unfolding h2 d2 by blast
  from h1 e1 t2 s2 e2 show ?thesis by blast
qed

text \<open>
  C5: on the three sentences with no bullet, keyword or checkbox the line tier finds
  nothing and the fallback returns the first and the third sentence. In general, when the
  line tier is empty, the list handed to the deduplication is the list of the trimmed,
  non-blank sentences that look imperative, in sentence order; and a sentence looks
  imperative exactly when its first run of letters and apostrophes exists and, with
  \<^verbatim>\<open>A\<close> to \<^verbatim>\<open>Z\<close> lower-cased, is one of the twelve verbs.
\<close>

theorem fallback_keeps_imperative_sentences:
  "extract_action_items U
     (ascii ''Implement the new feature by next week.\<newline>This is just a regular sentence.\<newline>Create a user dashboard.'')
     = [ascii ''Implement the new feature by next week.'', ascii ''Create a user dashboard.'']
   \<and> (tier_items U text = [] \<longrightarrow>
        extracted_items U text =
          filter (looks_imperative U)
            (filter (\<lambda>s. s \<noteq> []) (map py_strip (re_split_sentences (py_strip text)))))
   \<and> looks_imperative U s =
        (let w = takeWhile is_word_char (dropWhile (\<lambda>c. \<not> is_word_char c) s)
         in w \<noteq> [] \<and> map ascii_lower w \<in> imperative_starters)
   \<and> imperative_starters =
        set (map ascii [''add'', ''create'', ''implement'', ''fix'', ''update'', ''write'',
          ''check'', ''verify'', ''refactor'', ''document'', ''design'', ''investigate''])"
proof (intro conjI)
  show "extract_action_items U
     (ascii ''Implement the new feature by next week.\<newline>This is just a regular sentence.\<newline>Create a user dashboard.'')
     = [ascii ''Implement the new feature by next week.'', ascii ''Create a user dashboard.'']"
    by (simp add: extractor_defs)
  show "tier_items U text = [] \<longrightarrow>
        extracted_items U text =
          filter (looks_imperative U)
            (filter (\<lambda>s. s \<noteq> []) (map py_strip (re_split_sentences (py_strip text))))"
    by (simp add: extracted_items_def sentence_loop_filter)
  show "looks_imperative U s =
        (let w = takeWhile is_word_char (dropWhile (\<lambda>c. \<not> is_word_char c) s)
         in w \<noteq> [] \<and> map ascii_lower w \<in> imperative_starters)"
    by (rule looks_imperative_first_word)
  show "imperative_starters =
        set (map ascii [''add'', ''create'', ''implement'', ''fix'', ''update'', ''write'',
          ''check'', ''verify'', ''refactor'', ''document'', ''design'', ''investigate''])"
    by (simp add: imperative_starters_def)
qed

theorem fallback_keeps_imperative_sentences_witness:
  "tier_items ucd_ascii (ascii ''Fix it now! Maybe later. Add tests?'') = []
   \<and> extracted_items ucd_ascii (ascii ''Fix it now! Maybe later. Add tests?'')
       = [ascii ''Fix it now!'', ascii ''Add tests?'']
   \<and> looks_imperative ucd_ascii (ascii ''Fix it now!'')
   \<and> \<not> looks_imperative ucd_ascii (ascii ''Maybe later.'')"
proof -
  let ?t = "ascii ''Fix it now! Maybe later. Add tests?''"
  have h: "tier_items ucd_ascii ?t = []"
    by (simp add: extractor_defs)
  have f: "filter (looks_imperative ucd_ascii)
      (filter (\<lambda>s. s \<noteq> []) (map py_strip (re_split_sentences (py_strip ?t))))
     = [ascii ''Fix it now!'', ascii ''Add tests?'']"
    by (simp add: extractor_defs)
  have e: "extracted_items ucd_ascii ?t = [ascii ''Fix it now!'', ascii ''Add tests?'']"
    using fallback_keeps_imperative_sentences [of ucd_ascii ?t] h unfolding f by blast
  have l1: "looks_imperative ucd_ascii (ascii ''Fix it now!'')"
    by (simp add: extractor_defs)
  have l2: "\<not> looks_imperative ucd_ascii (ascii ''Maybe later.'')"
    by (simp add: extractor_defs)
  from h e l1 l2 show ?thesis by blast
qed

text \<open>
  C6: a text that consists of white space only, the empty text included, yields the
  empty list: every line trims to nothing, so the line tier finds nothing, and the
  trimmed text is empty, so the fallback has one blank sentence and keeps none.
\<close>

theorem whitespace_only_yields_nothing:
  assumes "list_all isspace text"
  shows "tier_items U text = []
         \<and> filter (\<lambda>s. s \<noteq> []) (map py_strip (re_split_sentences (py_strip text))) = []
         \<and> extract_action_items U text = []"
  using assms
  by (simp add: extract_action_items_def extracted_items_def tier_items_blank py_strip_blank
      re_split_sentences_def)

theorem whitespace_only_yields_nothing_witness:
  "list_all isspace (ascii '' \<newline>  '') \<and> extract_action_items ucd_ascii (ascii '' \<newline>  '') = []
   \<and> list_all isspace [] \<and> extract_action_items ucd_ascii [] = []"
proof -
  have h1: "list_all isspace (ascii '' \<newline>  '')"
    by (simp add: ascii_def isspace_def)
  have h2: "list_all isspace []"
    by simp
  show ?thesis
    using h1 h2 whitespace_only_yields_nothing [OF h1, of ucd_ascii]
      whitespace_only_yields_nothing [OF h2, of ucd_ascii]
    by blast
qed

text \<open>
  C7, at a store whose only action item has id 1: marking the absent id 2 leaves the store
  as it was, but the exception that reaches the caller is a plain \<^verbatim>\<open>DatabaseError\<close> with
  the message of the connection manager's catch-all clause and the
  \<^verbatim>\<open>ActionItemNotFoundError\<close> as its cause, not the \<^verbatim>\<open>ActionItemNotFoundError\<close> itself.
  The router answers an \<^verbatim>\<open>ActionItemNotFoundError\<close> with status 404 and any other
  \<^verbatim>\<open>DatabaseError\<close> with status 500. Marking the present id 1 succeeds and stores 1 in
  its \<open>done\<close> column.
\<close>

theorem mark_done_absent_id_raises_database_error:
  "mark_action_item_done 2 True db_one_item =
     (Inl (DatabaseError Unexpected_database_error (ActionItemNotFoundError 2)), db_one_item)
   \<and> \<not> is_ActionItemNotFoundError
         (DatabaseError Unexpected_database_error (ActionItemNotFoundError 2))
   \<and> is_DatabaseError (DatabaseError Unexpected_database_error (ActionItemNotFoundError 2))
   \<and> fst (mark_action_item_done 1 True db_one_item) = Inr ()
   \<and> map ai_done (action_items_table (snd (mark_action_item_done 1 True db_one_item))) = [1]"
  by (simp add: store_defs)

text \<open>
  C9: the line \<^verbatim>\<open>[TODO] Fix the login bug\<close> classifies as an action line, because its
  lower-casing contains \<^verbatim>\<open>[todo]\<close>, and is returned with the marker attached, because
  the prefix that is removed is the lower-case \<^verbatim>\<open>[todo]\<close> only; the same line with the
  lower-case marker loses it.
\<close>

theorem upper_case_checkbox_marker_kept:
  "is_action_line U (ascii ''[TODO] Fix the login bug'')
   \<and> py_contains (py_lower U (ascii ''[TODO] Fix the login bug'')) (ascii ''[todo]'')
   \<and> py_removeprefix (ascii ''[TODO] Fix the login bug'') (ascii ''[todo]'')
       = ascii ''[TODO] Fix the login bug''
   \<and> extract_action_items U (ascii ''[TODO] Fix the login bug'')
       = [ascii ''[TODO] Fix the login bug'']
   \<and> extract_action_items U (ascii ''[todo] Fix the login bug'') = [ascii ''Fix the login bug'']"
  by (simp add: extractor_defs)

text \<open>
  C10: the line \<^verbatim>\<open>- [ ]\<close> classifies as an action line, and after the bullet and the
  checkbox are removed the item that is appended is the empty string, which nothing
  filters out: the result is the list holding the empty string, not the empty list.
\<close>

theorem empty_item_returned:
  "is_action_line U (ascii ''- [ ]'')
   \<and> extract_action_items U (ascii ''- [ ]'') = [[]]
   \<and> extract_action_items U (ascii ''- [ ]'') \<noteq> []"
  by (simp add: extractor_defs)


end
